theory Spec2Isabelle
  imports Main "HOL-Library.Sublist" "HOL-Library.AList"
begin

section \<open>Strings of the source language\<close>

text \<open>
  Text is a \<^typ>\<open>string\<close>, and a character is a code point below 256; the
  development is about text of such characters. On it \<open>str.lower\<close> works character by
  character: the capital letters are \<open>A\<close>..\<open>Z\<close> (65..90) and \<open>0xC0\<close>..\<open>0xDE\<close> without
  the multiplication sign \<open>0xD7\<close>, the small letter is 32 positions further, and every
  other character is left alone. (Beyond this range \<open>str.lower\<close> turns the one character
  \<open>U+0130\<close> into two, and the positions in \<open>html.lower()\<close> are no longer those in
  \<open>html\<close>.)
\<close>

definition is_upper :: "char \<Rightarrow> bool" where
  "is_upper c \<longleftrightarrow>
     (let n = (of_char c :: nat)
      in (65 \<le> n \<and> n \<le> 90) \<or> (192 \<le> n \<and> n \<le> 222 \<and> n \<noteq> 215))"

definition lower_char :: "char \<Rightarrow> char" where
  "lower_char c = (if is_upper c then char_of (of_char c + 32 :: nat) else c)"

definition lower :: "string \<Rightarrow> string" where
  "lower s = map lower_char s"

text \<open>
  \<open>s.find(sub, start)\<close>: the lowest index \<open>i \<ge> start\<close> at which \<open>sub\<close> occurs in
  \<open>s\<close>; Python's \<open>-1\<close> is \<open>None\<close>.
\<close>

fun find_at :: "string \<Rightarrow> string \<Rightarrow> nat \<Rightarrow> nat option" where
  "find_at sub [] i = (if sub = [] then Some i else None)"
| "find_at sub (x # xs) i =
     (if prefix sub (x # xs) then Some i else find_at sub xs (Suc i))"

definition find :: "string \<Rightarrow> string \<Rightarrow> nat \<Rightarrow> nat option" where
  "find s sub start =
     (if length s < start then None else find_at sub (drop start s) start)"

text \<open>The slice \<open>s[i:j]\<close> for indices \<open>0 \<le> i\<close>, \<open>0 \<le> j\<close>; \<open>s[i:]\<close> is \<open>drop i s\<close>.\<close>

definition slice :: "string \<Rightarrow> nat \<Rightarrow> nat \<Rightarrow> string" where
  "slice s i j = take (j - i) (drop i s)"

text \<open>
  \<open>str.strip()\<close> removes leading and trailing whitespace; the whitespace characters
  below 256 are tab, line feed, vertical tab, form feed, carriage return, the
  separators \<open>0x1C\<close>..\<open>0x1F\<close>, the space, the next-line character \<open>0x85\<close> and the
  no-break space \<open>0xA0\<close>.
\<close>

definition is_space :: "char \<Rightarrow> bool" where
  "is_space c \<longleftrightarrow>
     c \<in> set [CHR 0x09, CHR 0x0A, CHR 0x0B, CHR 0x0C, CHR 0x0D,
                CHR 0x1C, CHR 0x1D, CHR 0x1E, CHR 0x1F, CHR '' '', CHR 0x85, CHR 0xA0]"

definition strip :: "string \<Rightarrow> string" where
  "strip s = rev (dropWhile is_space (rev (dropWhile is_space s)))"

text \<open>\<open>sep.join(parts)\<close>.\<close>

fun join :: "string \<Rightarrow> string list \<Rightarrow> string" where
  "join sep [] = []"
| "join sep [x] = x"
| "join sep (x # y # ys) = x @ sep @ join sep (y # ys)"

text \<open>\<open>s.replace("\n", "<br>")\<close>.\<close>

definition replace_newlines :: "string \<Rightarrow> string" where
  "replace_newlines s = concat (map (\<lambda>c. if c = CHR 0x0A then ''<br>'' else [c]) s)"

text \<open>
  \<open>int(v)\<close> on a string: surrounding whitespace is dropped, then an optional sign, then
  decimal digits, where single underscores may stand between digits. Everything else
  makes \<open>int\<close> raise \<open>ValueError\<close>, which is \<open>None\<close> here; so does a text of more than
  \<open>max_str_digits\<close> digits, the interpreter's limit for the conversion of a string to an
  integer, which is 4300 unless the interpreter is configured otherwise.
\<close>

definition max_str_digits :: nat where
  "max_str_digits = 4300"

definition digit_val :: "char \<Rightarrow> int option" where
  "digit_val c = map_of (zip ''0123456789'' [0, 1, 2, 3, 4, 5, 6, 7, 8, 9]) c"

fun parse_digits :: "string \<Rightarrow> int \<Rightarrow> int option" where
  "parse_digits [] acc = Some acc"
| "parse_digits (c # cs) acc =
     (case digit_val c of
        Some d \<Rightarrow> parse_digits cs (10 * acc + d)
      | None \<Rightarrow>
          (if c = CHR ''_'' then
             (case cs of
                [] \<Rightarrow> None
              | c' # cs' \<Rightarrow>
                  (case digit_val c' of
                     Some d \<Rightarrow> parse_digits cs' (10 * acc + d)
                   | None \<Rightarrow> None))
           else None))"

definition parse_unsigned :: "string \<Rightarrow> int option" where
  "parse_unsigned s =
     (if max_str_digits < length (filter (\<lambda>c. c \<noteq> CHR ''_'') s) then None
      else
        (case s of
           [] \<Rightarrow> None
         | c # cs \<Rightarrow> (case digit_val c of Some d \<Rightarrow> parse_digits cs d | None \<Rightarrow> None)))"

definition py_int :: "string \<Rightarrow> int option" where
  "py_int v =
     (case strip v of
        [] \<Rightarrow> None
      | c # cs \<Rightarrow>
          (if c = CHR ''-'' then map_option uminus (parse_unsigned cs)
           else if c = CHR ''+'' then parse_unsigned cs
           else parse_unsigned (c # cs)))"


section \<open>The table parser: \<open>TableParser\<close>\<close>

text \<open>
  \<open>html.parser.HTMLParser\<close> belongs to Python's standard library. Its \<open>feed\<close> reads the
  markup and calls \<open>handle_starttag\<close>, \<open>handle_endtag\<close> and \<open>handle_data\<close> in document
  order; the sequence of these calls is a list of events. After the calls it has made,
  \<open>feed\<close> may raise an exception of its own (\<open>AssertionError\<close> on a marked section
  such as \<open><![foo[\<close>, in the releases that raise there). So \<open>feed\<close> is a parameter of
  everything that parses markup: it gives the calls made and the exception that ended
  them, if there is one. An attribute without a value has the value \<open>None\<close>.
\<close>

datatype html_event =
    StartTag string "(string \<times> string option) list"
  | EndTag string
  | Data string

datatype error = AttributeError | ValueError | IndexError | AssertionError

type_synonym html_feed = "string \<Rightarrow> html_event list \<times> error option"

record cell =
  ctext :: string
  rowspan :: int
  colspan :: int
  is_header :: bool

type_synonym row = "cell list"
type_synonym table = "row list"

record parser =
  tables :: "table list"
  cur_table :: "table option"
  cur_row :: "row option"
  cur_cell :: "cell option"
  cell_text :: string

definition init_parser :: parser where
  "init_parser =
     \<lparr>tables = [], cur_table = None, cur_row = None, cur_cell = None, cell_text = []\<rparr>"

text \<open>
  \<open>int(v)\<close> inside \<open>try\<close>/\<open>except Exception\<close>: a value that is missing (\<open>int(None)\<close>
  raises \<open>TypeError\<close>) or that \<open>int\<close> rejects leaves the cell as it is.
\<close>

definition set_span :: "string \<times> string option \<Rightarrow> cell \<Rightarrow> cell" where
  "set_span kv c =
     (case kv of (k, v) \<Rightarrow>
        if lower k = ''rowspan'' then
          (case Option.bind v py_int of Some n \<Rightarrow> c\<lparr>rowspan := n\<rparr> | None \<Rightarrow> c)
        else if lower k = ''colspan'' then
          (case Option.bind v py_int of Some n \<Rightarrow> c\<lparr>colspan := n\<rparr> | None \<Rightarrow> c)
        else c)"

definition handle_starttag ::
  "string \<Rightarrow> (string \<times> string option) list \<Rightarrow> parser \<Rightarrow> parser" where
  "handle_starttag tag attrs p =
     (let t = lower tag in
      if t = ''table'' then p\<lparr>cur_table := Some []\<rparr>
      else if t = ''tr'' then
        (if cur_table p \<noteq> None then p\<lparr>cur_row := Some []\<rparr> else p)
      else if t = ''td'' \<or> t = ''th'' then
        (if cur_row p \<noteq> None then
           p\<lparr>cur_cell :=
               Some (fold set_span attrs
                 \<lparr>ctext = [], rowspan = 1, colspan = 1, is_header = (t = ''th'')\<rparr>),
             cell_text := []\<rparr>
         else p)
      else p)"

text \<open>
  In \<open>handle_endtag\<close> the statement \<open>self._cur_row.append(self._cur_cell)\<close> is guarded
  by \<open>self._cur_cell is not None\<close> only: with \<open>self._cur_row\<close> being \<open>None\<close> it raises
  \<open>AttributeError\<close>.
\<close>

definition handle_endtag :: "string \<Rightarrow> parser \<Rightarrow> error + parser" where
  "handle_endtag tag p =
     (let t = lower tag in
      if t = ''td'' \<or> t = ''th'' then
        (case cur_cell p of
           None \<Rightarrow> Inr p
         | Some c \<Rightarrow>
             (case cur_row p of
                None \<Rightarrow> Inl AttributeError
              | Some r \<Rightarrow>
                  Inr (p\<lparr>cur_row := Some (r @ [c\<lparr>ctext := strip (cell_text p)\<rparr>]),
                         cur_cell := None\<rparr>)))
      else if t = ''tr'' then
        Inr ((case (cur_table p, cur_row p) of
                (Some tb, Some r) \<Rightarrow> p\<lparr>cur_table := Some (tb @ [r])\<rparr>
              | _ \<Rightarrow> p)\<lparr>cur_row := None\<rparr>)
      else if t = ''table'' then
        Inr ((case cur_table p of
                Some tb \<Rightarrow> p\<lparr>tables := tables p @ [tb]\<rparr>
              | None \<Rightarrow> p)\<lparr>cur_table := None\<rparr>)
      else Inr p)"

definition handle_data :: "string \<Rightarrow> parser \<Rightarrow> parser" where
  "handle_data d p = (if cur_cell p \<noteq> None then p\<lparr>cell_text := cell_text p @ d\<rparr> else p)"

fun handle_event :: "html_event \<Rightarrow> parser \<Rightarrow> error + parser" where
  "handle_event (StartTag tag attrs) p = Inr (handle_starttag tag attrs p)"
| "handle_event (EndTag tag) p = handle_endtag tag p"
| "handle_event (Data d) p = Inr (handle_data d p)"

fun run_parser :: "html_event list \<Rightarrow> parser \<Rightarrow> error + parser" where
  "run_parser [] p = Inr p"
| "run_parser (e # es) p =
     (case handle_event e p of Inl err \<Rightarrow> Inl err | Inr p' \<Rightarrow> run_parser es p')"

section \<open>From a table to Markdown: \<open>_table_to_markdown\<close>\<close>

subsection \<open>Expanding \<open>rowspan\<close> and \<open>colspan\<close>\<close>

text \<open>
  The dictionary \<open>carry\<close> maps a position \<open>(r, c)\<close> to the text a \<open>rowspan\<close> from above
  has reserved for it. It is an association list, read with \<^const>\<open>map_of\<close>; \<open>pop\<close> is
  \<^const>\<open>AList.delete\<close> and an assignment is \<^const>\<open>AList.update\<close>.
\<close>

type_synonym carry = "((int \<times> int) \<times> string) list"

lemma length_delete_less:
  "map_of al k = Some v \<Longrightarrow> length (AList.delete k al) < length al"
proof -
  assume "map_of al k = Some v"
  then have "(k, v) \<in> set al" by (rule map_of_SomeD)
  then have "length (filter (\<lambda>(k', _). k \<noteq> k') al) < length al"
    by (intro length_filter_less [where x = "(k, v)"]) simp_all
  then show ?thesis by (simp add: AList.delete_eq)
qed

text \<open>\<open>while (r_idx, c_idx) in carry: row_vals.append(carry.pop((r_idx, c_idx))); c_idx += 1\<close>\<close>

function place_carried :: "carry \<Rightarrow> int \<Rightarrow> int \<Rightarrow> string list \<Rightarrow> carry \<times> int \<times> string list"
  where
  "place_carried ca r c row_vals =
     (case map_of ca (r, c) of
        None \<Rightarrow> (ca, c, row_vals)
      | Some v \<Rightarrow> place_carried (AList.delete (r, c) ca) r (c + 1) (row_vals @ [v]))"
  by pat_completeness auto
termination
  by (relation "measure (\<lambda>(ca, r, c, row_vals). length ca)")
    (auto simp: length_delete_less)

text \<open>
  \<open>for dr in range(1, rs): for dc in range(cs):
  carry[(r_idx + dr, left + dc)] = text if dc == 0 else ""\<close>
\<close>

definition reserve :: "carry \<Rightarrow> int \<Rightarrow> int \<Rightarrow> int \<Rightarrow> int \<Rightarrow> string \<Rightarrow> carry" where
  "reserve ca r_idx left rs cs txt =
     fold (\<lambda>dr ca'.
            fold (\<lambda>dc. AList.update (r_idx + int dr, left + int dc) (if dc = 0 then txt else []))
              [0..<nat cs] ca')
       [1..<nat rs] ca"

text \<open>The body of \<open>for cell in row\<close>, on the state \<open>(carry, c_idx, row_vals)\<close>.\<close>

definition place_cell ::
  "int \<Rightarrow> cell \<Rightarrow> carry \<times> int \<times> string list \<Rightarrow> carry \<times> int \<times> string list" where
  "place_cell r_idx c st =
     (case st of (ca, c_idx, row_vals) \<Rightarrow>
        let txt = replace_newlines (ctext c);
            rs = rowspan c;
            cs = colspan c;
            row_vals1 = row_vals @ [txt] @ replicate (nat (cs - 1)) [];
            ca1 = (if rs > 1
                   then reserve ca r_idx (int (length row_vals1) - cs) rs cs txt
                   else ca)
        in place_carried ca1 r_idx (c_idx + cs) row_vals1)"

definition expand_row :: "int \<Rightarrow> row \<Rightarrow> carry \<Rightarrow> carry \<times> int \<times> string list" where
  "expand_row r_idx rw ca = fold (place_cell r_idx) rw (place_carried ca r_idx 0 [])"

text \<open>
  \<open>for r_idx, row in enumerate(table)\<close>, on the state \<open>(carry, max_cols, grid)\<close>; the
  result is the grid before padding and \<open>max_cols\<close>.
\<close>

fun expand_rows ::
  "table \<Rightarrow> int \<Rightarrow> carry \<Rightarrow> nat \<Rightarrow> string list list \<Rightarrow> string list list \<times> nat" where
  "expand_rows [] r_idx ca max_cols grid = (grid, max_cols)"
| "expand_rows (rw # rws) r_idx ca max_cols grid =
     (case expand_row r_idx rw ca of (ca', c_idx, row_vals) \<Rightarrow>
        expand_rows rws (r_idx + 1) ca' (max max_cols (length row_vals)) (grid @ [row_vals]))"

text \<open>\<open>for row in grid: row += [""] * (max_cols - len(row))\<close>\<close>

definition pad_rows :: "nat \<Rightarrow> string list list \<Rightarrow> string list list" where
  "pad_rows max_cols grid = map (\<lambda>rw. rw @ replicate (max_cols - length rw) []) grid"

definition expand_grid :: "table \<Rightarrow> string list list \<times> nat" where
  "expand_grid tb =
     (case expand_rows tb 0 [] 0 [] of (grid, max_cols) \<Rightarrow> (pad_rows max_cols grid, max_cols))"

subsection \<open>Counting and flattening the header layers\<close>

fun count_header_layers :: "table \<Rightarrow> nat" where
  "count_header_layers [] = 0"
| "count_header_layers (rw # rws) =
     (if list_ex is_header rw then Suc (count_header_layers rws) else 0)"

text \<open>
  The first inner loop: \<open>current\<close> is the last non-blank text seen, and every column
  gets the current one. The state is \<open>(propagated, current)\<close>.
\<close>

definition propagate_step :: "string list \<Rightarrow> nat \<Rightarrow> string list \<times> string \<Rightarrow> string list \<times> string"
  where
  "propagate_step layer c st =
     (case st of (propagated, current) \<Rightarrow>
        let current' = (if strip (layer ! c) \<noteq> [] then strip (layer ! c) else current)
        in (propagated[c := current'], current'))"

definition propagate :: "nat \<Rightarrow> string list \<Rightarrow> string list" where
  "propagate max_cols layer =
     fst (fold (propagate_step layer) [0..<max_cols] (replicate max_cols [], []))"

text \<open>
  The second inner loop, on the state \<open>(headers, prev_seg)\<close>: a blank segment and a
  segment equal to the column's previous one are skipped.
\<close>

definition join_step ::
  "string list \<Rightarrow> nat \<Rightarrow> string list \<times> string option list \<Rightarrow>
     string list \<times> string option list" where
  "join_step propagated c st =
     (case st of (headers, prev_seg) \<Rightarrow>
        let seg = propagated ! c in
        if seg = [] then (headers, prev_seg)
        else if prev_seg ! c = Some seg then (headers, prev_seg)
        else (headers[c := (if headers ! c = [] then seg else headers ! c @ '' > '' @ seg)],
              prev_seg[c := Some seg]))"

text \<open>
  One header layer. The loops read \<open>layer[c]\<close> for every \<open>c < max_cols\<close>, which raises
  \<open>IndexError\<close> on a shorter layer.
\<close>

definition merge_layer ::
  "nat \<Rightarrow> string list \<Rightarrow> string list \<times> string option list \<Rightarrow>
     error + string list \<times> string option list" where
  "merge_layer max_cols layer st =
     (if length layer < max_cols then Inl IndexError
      else Inr (fold (join_step (propagate max_cols layer)) [0..<max_cols] st))"

fun merge_layers ::
  "nat \<Rightarrow> string list list \<Rightarrow> string list \<times> string option list \<Rightarrow>
     error + string list \<times> string option list" where
  "merge_layers max_cols [] st = Inr st"
| "merge_layers max_cols (layer # layers) st =
     (case merge_layer max_cols layer st of
        Inl err \<Rightarrow> Inl err
      | Inr st' \<Rightarrow> merge_layers max_cols layers st')"

text \<open>\<open>str(n)\<close> for a natural number, and the label \<open>f"col_{i+1}"\<close>.\<close>

function str_nat :: "nat \<Rightarrow> string" where
  "str_nat n =
     (if n < 10 then [''0123456789'' ! n]
      else str_nat (n div 10) @ [''0123456789'' ! (n mod 10)])"
  by pat_completeness auto
termination
  by (relation "measure id") auto

definition name_columns :: "string list \<Rightarrow> string list" where
  "name_columns headers =
     map (\<lambda>i. if headers ! i = [] then ''col_'' @ str_nat (i + 1) else headers ! i)
       [0..<length headers]"

text \<open>
  \<open>for r in range(min(header_layers, len(grid))): layer = grid[r]\<close> visits the first
  \<open>min header_layers (length grid)\<close> rows of the grid in order.
\<close>

definition flatten_headers ::
  "nat \<Rightarrow> string list list \<Rightarrow> nat \<Rightarrow> error + string list" where
  "flatten_headers max_cols grid header_layers =
     (case merge_layers max_cols (take (min header_layers (length grid)) grid)
             (replicate max_cols [], replicate max_cols None) of
        Inl err \<Rightarrow> Inl err
      | Inr (headers, prev_seg) \<Rightarrow> Inr (name_columns headers))"

subsection \<open>Rendering\<close>

definition md_line :: "string list \<Rightarrow> string" where
  "md_line cells = ''| '' @ join '' | '' cells @ '' |''"

definition render :: "nat \<Rightarrow> string list \<Rightarrow> string list list \<Rightarrow> string" where
  "render max_cols headers body =
     join [CHR 0x0A]
       ([md_line headers, md_line (replicate max_cols '':---'')]
        @ map (\<lambda>rw. md_line (take max_cols rw)) body)"

definition table_to_markdown :: "table \<Rightarrow> error + string" where
  "table_to_markdown tb =
     (case expand_grid tb of (grid, max_cols) \<Rightarrow>
        let header_layers = count_header_layers tb in
        (case flatten_headers max_cols grid header_layers of
           Inl err \<Rightarrow> Inl err
         | Inr headers \<Rightarrow> Inr (render max_cols headers (drop header_layers grid))))"

section \<open>One table's markup: \<open>table_html_to_markdown\<close>\<close>

text \<open>
  \<open>parser.feed(table_html)\<close> runs the handlers on the events; an exception of a handler
  comes before the one \<open>feed\<close> itself ends with.
\<close>

definition table_html_to_markdown :: "html_feed \<Rightarrow> string \<Rightarrow> error + string" where
  "table_html_to_markdown feed table_html =
     (case feed table_html of (events, raised) \<Rightarrow>
        (case run_parser events init_parser of
           Inl err \<Rightarrow> Inl err
         | Inr p \<Rightarrow>
             (case raised of
                Some err \<Rightarrow> Inl err
              | None \<Rightarrow>
                  (case tables p of
                     [] \<Rightarrow> Inr table_html
                   | tb # _ \<Rightarrow> table_to_markdown tb))))"

section \<open>Locating the tables: \<open>replace_tables_in_place\<close>\<close>

lemma find_at_Some:
  "find_at sub s i = Some j \<Longrightarrow>
     i \<le> j \<and> j + length sub \<le> i + length s \<and> prefix sub (drop (j - i) s)"
proof (induction s arbitrary: i)
  case Nil
  then show ?case by (simp split: if_splits)
next
  case (Cons x xs)
  show ?case
  proof (cases "prefix sub (x # xs)")
    case True
    with Cons.prems have "j = i" by simp
    with True prefix_length_le [OF True] show ?thesis by simp
  next
    case False
    with Cons.prems have "find_at sub xs (Suc i) = Some j" by simp
    from Cons.IH [OF this] have *: "Suc i \<le> j" "j + length sub \<le> Suc i + length xs"
      "prefix sub (drop (j - Suc i) xs)" by simp_all
    from *(1) have "j - i = Suc (j - Suc i)" by simp
    with * show ?thesis by simp
  qed
qed

lemma find_Some:
  assumes "find s sub start = Some j"
  shows "start \<le> j" and "j + length sub \<le> length s" and "prefix sub (drop j s)"
proof -
  from assms have le: "start \<le> length s"
    and f: "find_at sub (drop start s) start = Some j"
    by (simp_all add: find_def split: if_splits)
  note fs = find_at_Some [OF f]
  from fs have a: "start \<le> j" by (rule conjunct1)
  from fs have b: "j + length sub \<le> start + length (drop start s)" by blast
  from fs have c: "prefix sub (drop (j - start) (drop start s))" by blast
  show "start \<le> j" by (rule a)
  from b le show "j + length sub \<le> length s" by simp
  from a have "j - start + start = j" by simp
  with c show "prefix sub (drop j s)" by simp
qed


text \<open>
  The \<open>while True\<close> loop, on the state \<open>(pos, out_parts)\<close>; \<open>conv\<close> is the conversion
  of one table's markup and \<open>lw\<close> is \<open>html.lower()\<close>. Every \<open>break\<close> returns the parts
  collected; an exception raised by \<open>conv\<close> leaves the function.
\<close>

function replace_loop ::
  "(string \<Rightarrow> error + string) \<Rightarrow> string \<Rightarrow> string \<Rightarrow> nat \<Rightarrow> string list \<Rightarrow>
     error + string list" where
  "replace_loop conv html lw pos out_parts =
     (case find lw ''<table'' pos of
        None \<Rightarrow> Inr (out_parts @ [drop pos html])
      | Some start \<Rightarrow>
          (case find lw ''>'' start of
             None \<Rightarrow> Inr (out_parts @ [slice html pos start] @ [drop start html])
           | Some gt \<Rightarrow>
               (case find lw ''</table>'' (gt + 1) of
                  None \<Rightarrow> Inr (out_parts @ [slice html pos start] @ [drop start html])
                | Some endp \<Rightarrow>
                    (case conv (slice html start (endp + length ''</table>'')) of
                       Inl err \<Rightarrow> Inl err
                     | Inr md \<Rightarrow>
                         replace_loop conv html lw (endp + length ''</table>'')
                           (out_parts @ [slice html pos start] @ [md])))))"
  by pat_completeness auto
termination
proof (relation "measure (\<lambda>(conv, html, lw, pos, out_parts). length lw - pos)", goal_cases)
  case 1
  show ?case by simp
next
  case (2 conv html lw pos out_parts start gt endp md)
  from find_Some [OF 2(1)] have "pos \<le> start" "start + length ''<table'' \<le> length lw"
    by simp_all
  moreover from find_Some [OF 2(2)] have "start \<le> gt" by simp
  moreover from find_Some [OF 2(3)] have "gt + 1 \<le> endp" by simp
  ultimately show ?case by simp
qed

text \<open>
  \<open>replace_tables_in_place(html)\<close>; \<open>None\<close> and the empty string are the values with
  \<open>not html\<close>.
\<close>

definition replace_tables_in_place :: "html_feed \<Rightarrow> string option \<Rightarrow> error + string" where
  "replace_tables_in_place feed html =
     (case html of
        None \<Rightarrow> Inr []
      | Some h \<Rightarrow>
          if h = [] then Inr []
          else
            (case replace_loop (table_html_to_markdown feed) h (lower h) 0 [] of
               Inl err \<Rightarrow> Inl err
             | Inr out_parts \<Rightarrow> Inr (concat out_parts)))"

section \<open>A tokenizer for plain markup\<close>

text \<open>
  For concrete inputs, \<open>plain_events\<close> is the event sequence of \<open>HTMLParser.feed\<close> on
  markup that consists of text without \<open><\<close> and \<open>&\<close>, of start tags
  \<open><name a="v" ...>\<close> whose attributes are separated by single spaces and have
  double-quoted values without spaces, and of end tags \<open></name>\<close>; on such markup
  \<open>feed\<close> raises nothing, which is \<open>plain_feed\<close>. Both are used on such markup only.
\<close>

fun split_on :: "char \<Rightarrow> string \<Rightarrow> string \<Rightarrow> string list" where
  "split_on c [] acc = [acc]"
| "split_on c (x # xs) acc =
     (if x = c then acc # split_on c xs [] else split_on c xs (acc @ [x]))"

definition split_attr :: "string \<Rightarrow> string \<times> string option" where
  "split_attr a =
     (case dropWhile (\<lambda>c. c \<noteq> CHR ''='') a of
        [] \<Rightarrow> (lower a, None)
      | _ # v \<Rightarrow>
          (lower (takeWhile (\<lambda>c. c \<noteq> CHR ''='') a), Some (filter (\<lambda>c. c \<noteq> CHR 0x22) v)))"

definition tag_event :: "string \<Rightarrow> html_event" where
  "tag_event inner =
     (case inner of
        [] \<Rightarrow> Data ''<>''
      | c # nm \<Rightarrow>
          if c = CHR ''/'' then EndTag (lower nm)
          else
            (case filter (\<lambda>w. w \<noteq> []) (split_on (CHR '' '') inner []) of
               [] \<Rightarrow> Data (''<'' @ inner @ ''>'')
             | nm # as \<Rightarrow> StartTag (lower nm) (map split_attr as)))"

function plain_events :: "string \<Rightarrow> html_event list" where
  "plain_events s =
     (case s of
        [] \<Rightarrow> []
      | c # cs \<Rightarrow>
          if c = CHR ''<'' then
            tag_event (takeWhile (\<lambda>x. x \<noteq> CHR ''>'') cs)
              # plain_events (drop 1 (dropWhile (\<lambda>x. x \<noteq> CHR ''>'') cs))
          else
            Data (takeWhile (\<lambda>x. x \<noteq> CHR ''<'') s)
              # plain_events (dropWhile (\<lambda>x. x \<noteq> CHR ''<'') cs))"
  by pat_completeness auto
termination
proof (relation "measure length", goal_cases)
  case 1
  show ?case by simp
next
  case (2 s c cs)
  have "length (dropWhile (\<lambda>x. x \<noteq> CHR ''>'') cs) \<le> length cs"
    by (rule length_dropWhile_le)
  with 2 show ?case by simp
next
  case (3 s c cs)
  have "length (dropWhile (\<lambda>x. x \<noteq> CHR ''<'') cs) \<le> length cs"
    by (rule length_dropWhile_le)
  with 3 show ?case by simp
qed

definition plain_feed :: html_feed where
  "plain_feed s = (plain_events s, None)"

section \<open>Properties\<close>

subsection \<open>The end-to-end example\<close>

definition example_table :: string where
  "example_table =
     ''<table><tr><th rowspan=\"2\">Name</th><th colspan=\"2\">Info</th></tr>''
     @ ''<tr><th>Age</th><th>City</th></tr>''
     @ ''<tr><td>Tom</td><td>30</td><td>NY</td></tr></table>''"

text \<open>
  C3: for the example table (a header cell with \<open>rowspan="2"\<close> beside one with
  \<open>colspan="2"\<close>, a second header row and one body row) the conversion returns the
  Markdown table with the header row \<open>Name | Info > Age | Info > City\<close>, the separator
  row and the body row \<open>Tom | 30 | NY\<close>.
\<close>

theorem example_table_markdown:
  "replace_tables_in_place plain_feed (Some example_table) =
     Inr (''| Name | Info > Age | Info > City |'' @ [CHR 0x0A]
          @ ''| :--- | :--- | :--- |'' @ [CHR 0x0A]
          @ ''| Tom | 30 | NY |'')"
  unfolding example_table_def by code_simp

subsection \<open>The expanded grid is rectangular\<close>

lemma expand_rows_shape:
  "expand_rows rws r ca m grid = (g', m') \<Longrightarrow>
     \<exists>new. g' = grid @ new \<and> length new = length rws \<and> m' = fold max (map length new) m"
proof (induction rws arbitrary: r ca m grid)
  case Nil
  then show ?case by simp
next
  case (Cons rw rws)
  obtain ca' c_idx row_vals where er: "expand_row r rw ca = (ca', c_idx, row_vals)"
    by (cases "expand_row r rw ca") auto
  with Cons.prems have
    "expand_rows rws (r + 1) ca' (max m (length row_vals)) (grid @ [row_vals]) = (g', m')"
    by simp
  from Cons.IH [OF this] obtain new where
    n: "g' = (grid @ [row_vals]) @ new" "length new = length rws"
       "m' = fold max (map length new) (max m (length row_vals))"
    by blast
  show ?case
  proof (intro exI conjI)
    show "g' = grid @ (row_vals # new)" using n(1) by simp
    show "length (row_vals # new) = length (rw # rws)" using n(2) by simp
    show "m' = fold max (map length (row_vals # new)) m" using n(3) by (simp add: max.commute)
  qed
qed

lemma fold_max_ge: "(m::nat) \<le> fold max xs m \<and> (\<forall>x \<in> set xs. x \<le> fold max xs m)"
proof (induction xs arbitrary: m)
  case Nil
  show ?case by simp
next
  case (Cons x xs)
  from Cons.IH [of "max x m"] show ?case by auto
qed

lemma length_pad_rows:
  assumes "\<forall>rw \<in> set grid. length rw \<le> m"
  shows "\<forall>rw \<in> set (pad_rows m grid). length rw = m"
  using assms by (auto simp: pad_rows_def)

lemma expand_grid_shape:
  assumes "expand_grid tb = (grid, max_cols)"
  shows "length grid = length tb" and "\<forall>rw \<in> set grid. length rw = max_cols"
    and "max_cols = Max (set (0 # map length (fst (expand_rows tb 0 [] 0 []))))"
proof -
  obtain raw m where er: "expand_rows tb 0 [] 0 [] = (raw, m)"
    by (cases "expand_rows tb 0 [] 0 []") auto
  with assms have g: "grid = pad_rows m raw" and mc: "max_cols = m"
    by (auto simp: expand_grid_def)
  from expand_rows_shape [OF er] have len: "length raw = length tb"
    and m: "m = fold max (map length raw) 0" by auto
  from fold_max_ge [of 0 "map length raw"] m have "\<forall>rw \<in> set raw. length rw \<le> m"
    by simp
  from length_pad_rows [OF this] g mc show "\<forall>rw \<in> set grid. length rw = max_cols"
    by simp
  have "Max (set (0 # map length raw)) = fold max (map length raw) 0"
    by (rule Max.set_eq_fold)
  with m mc er show "max_cols = Max (set (0 # map length (fst (expand_rows tb 0 [] 0 []))))"
    by simp
  from g len show "length grid = length tb" by (simp add: pad_rows_def)
qed

text \<open>
  C8: the grid of every table is rectangular. It has one row for each row of the table,
  every row has the length \<open>max_cols\<close>, and \<open>max_cols\<close> is the largest length among the
  rows as they are before padding (and 0 for a table without rows).
\<close>

theorem expand_grid_rectangular:
  assumes "expand_grid tb = (grid, max_cols)"
  shows "length grid = length tb \<and>
         (\<forall>rw \<in> set grid. length rw = max_cols) \<and>
         max_cols = Max (set (0 # map length (fst (expand_rows tb 0 [] 0 []))))"
  using expand_grid_shape [OF assms] by blast

text \<open>
  A table whose rows declare 3, 3 and 0 columns: the first cell spans three rows and
  two columns, so the rows before padding have the lengths 3, 5 and 2.
\<close>

definition ragged_table :: table where
  "ragged_table =
     [[\<lparr>ctext = ''A'', rowspan = 3, colspan = 2, is_header = True\<rparr>,
       \<lparr>ctext = ''B'', rowspan = 1, colspan = 1, is_header = True\<rparr>],
      [\<lparr>ctext = ''c'', rowspan = 1, colspan = 3, is_header = False\<rparr>],
      []]"

lemma expand_grid_ragged_table:
  "expand_grid ragged_table =
     ([[''A'', '''', ''B'', '''', ''''],
       [''A'', '''', ''c'', '''', ''''],
       [''A'', '''', '''', '''', '''']], 5)"
  unfolding ragged_table_def by code_simp

theorem expand_grid_rectangular_witness:
  "expand_grid ragged_table =
     ([[''A'', '''', ''B'', '''', ''''],
       [''A'', '''', ''c'', '''', ''''],
       [''A'', '''', '''', '''', '''']], 5) \<and>
   fst (expand_rows ragged_table 0 [] 0 []) =
     [[''A'', '''', ''B''], [''A'', '''', ''c'', '''', ''''], [''A'', '''']] \<and>
   length (fst (expand_grid ragged_table)) = length ragged_table \<and>
   map length (fst (expand_grid ragged_table)) = [5, 5, 5]"
proof -
  have raw: "fst (expand_rows ragged_table 0 [] 0 []) =
     [[''A'', '''', ''B''], [''A'', '''', ''c'', '''', ''''], [''A'', '''']]"
    unfolding ragged_table_def by code_simp
  from expand_grid_rectangular [OF expand_grid_ragged_table] expand_grid_ragged_table raw
  show ?thesis by simp
qed

subsection \<open>The table locator\<close>

lemma find_at_None_iff: "find_at sub s i = None \<longleftrightarrow> \<not> sublist sub s"
proof (induction s arbitrary: i)
  case Nil
  show ?case by simp
next
  case (Cons x xs)
  show ?case
  proof (cases "prefix sub (x # xs)")
    case True
    then show ?thesis by (simp add: sublist_Cons_right)
  next
    case False
    with Cons.IH [of "Suc i"] show ?thesis by (simp add: sublist_Cons_right)
  qed
qed

lemma find_0_None_iff: "find s sub 0 = None \<longleftrightarrow> \<not> sublist sub s"
  by (simp add: find_def find_at_None_iff)











text \<open>
  C1: for every input, \<open>replace_tables_in_place\<close> is to return the input with each
  located region replaced by its rendering and everything outside the regions kept as it
  is. In the input below the text \<open>xx\<close> and \<open>yy\<close> lies around one region, in which the
  row is closed before its cell. While the region is converted, \<open>handle_endtag\<close> runs
  \<open>self._cur_row.append(self._cur_cell)\<close> with \<open>self._cur_row\<close> being \<open>None\<close> and
  raises \<open>AttributeError\<close>; \<open>replace_tables_in_place\<close> returns no text at all, and
  \<open>xx\<close> and \<open>yy\<close> are lost with the region.
\<close>

theorem frame_input_raises:
  "replace_tables_in_place plain_feed (Some ''xx<table><tr><td>a</tr></td></table>yy'') =
     Inl AttributeError"
  by code_simp

text \<open>
  C2: an input in which \<open><table\<close> does not occur, in any letter case, is returned
  unchanged; \<open>None\<close> and the empty string give the empty string.
\<close>

theorem no_table_unchanged:
  "(\<not> sublist ''<table'' (lower h) \<longrightarrow> replace_tables_in_place feed (Some h) = Inr h) \<and>
   replace_tables_in_place feed None = Inr [] \<and>
   replace_tables_in_place feed (Some []) = Inr []"
proof (intro conjI impI)
  assume "\<not> sublist ''<table'' (lower h)"
  then have f: "find (lower h) ''<table'' 0 = None" by (simp add: find_0_None_iff)
  then have "replace_loop (table_html_to_markdown feed) h (lower h) 0 [] = Inr [h]"
    by (subst replace_loop.simps) simp
  then show "replace_tables_in_place feed (Some h) = Inr h"
    by (simp add: replace_tables_in_place_def)
qed (simp_all add: replace_tables_in_place_def)

lemma no_table_in_paragraph: "\<not> sublist ''<table'' (lower ''<p>Tables: none</P>'')"
  unfolding find_0_None_iff [symmetric] by code_simp

theorem no_table_unchanged_witness:
  "\<not> sublist ''<table'' (lower ''<p>Tables: none</P>'') \<and>
   replace_tables_in_place plain_feed (Some ''<p>Tables: none</P>'') = Inr ''<p>Tables: none</P>''"
  using no_table_unchanged [of "''<p>Tables: none</P>''" plain_feed] no_table_in_paragraph by simp

subsection \<open>What counts as an opening, and the unterminated table\<close>



















text \<open>
  C5: an input whose last \<open><table\<close> has no \<open>>\<close>, after a table in which a row is
  closed before its cell. The claim has the rest of the document from the unterminated
  opening copied through and no exception raised; here \<open>handle_endtag\<close> raises
  \<open>AttributeError\<close> while the first table is converted, and nothing is returned.
\<close>

theorem unclosed_row_raises:
  "replace_tables_in_place plain_feed (Some ''<table><tr><td>a</tr></td></table><p><table'') =
     Inl AttributeError"
  by code_simp

text \<open>
  The locator's own branches do what C5 says: when the first \<open><table\<close> has no \<open>>\<close>
  or no closing tag after it, the input is returned unchanged.
\<close>

lemma unterminated_table_passthrough:
  assumes "find (lower h) ''<table'' 0 = Some start"
    and "find (lower h) ''>'' start = None \<or>
         (\<exists>gt. find (lower h) ''>'' start = Some gt \<and> find (lower h) ''</table>'' (gt + 1) = None)"
  shows "replace_tables_in_place feed (Some h) = Inr h"
proof -
  have "replace_loop (table_html_to_markdown feed) h (lower h) 0 [] =
          Inr [slice h 0 start, drop start h]"
    using assms by (subst replace_loop.simps) auto
  moreover have "slice h 0 start @ drop start h = h" by (simp add: slice_def)
  ultimately show ?thesis by (simp add: replace_tables_in_place_def)
qed

subsection \<open>The span attributes of a cell\<close>








subsection \<open>A region in which no table is recorded\<close>

text \<open>
  \<open>table_html_to_markdown\<close> returns the markup it was given when \<open>parser.tables\<close> is
  empty. A table is recorded at an end tag \<open>table\<close> that follows a start tag \<open>table\<close>;
  without such a start tag the parser stays idle: it has no table, row or cell open and
  has recorded nothing.
\<close>

fun is_table_start :: "html_event \<Rightarrow> bool" where
  "is_table_start (StartTag tag attrs) = (lower tag = ''table'')"
| "is_table_start (EndTag tag) = False"
| "is_table_start (Data d) = False"

definition idle :: "parser \<Rightarrow> bool" where
  "idle p \<longleftrightarrow> tables p = [] \<and> cur_table p = None \<and> cur_row p = None \<and> cur_cell p = None"

lemma handle_event_idle:
  assumes "idle p" and "\<not> is_table_start e"
  shows "\<exists>p'. handle_event e p = Inr p' \<and> idle p'"
proof (cases e)
  case (StartTag tag attrs)
  with assms show ?thesis by (simp add: idle_def handle_starttag_def Let_def)
next
  case (EndTag tag)
  with assms show ?thesis by (simp add: idle_def handle_endtag_def Let_def)
next
  case (Data d)
  with assms show ?thesis by (simp add: idle_def handle_data_def)
qed

lemma run_parser_idle:
  "idle p \<Longrightarrow> \<not> list_ex is_table_start events \<Longrightarrow>
     \<exists>p'. run_parser events p = Inr p' \<and> idle p'"
proof (induction events arbitrary: p)
  case Nil
  then show ?case by simp
next
  case (Cons e events)
  from Cons.prems have "\<not> is_table_start e" and rest: "\<not> list_ex is_table_start events"
    by simp_all
  from handle_event_idle [OF Cons.prems(1) this(1)]
  obtain p1 where p1: "handle_event e p = Inr p1" "idle p1" by blast
  from Cons.IH [OF p1(2) rest] p1(1) show ?case by simp
qed

text \<open>
  C6, as the code has it: when \<open>feed\<close> raises nothing, the conversion returns the
  region's markup unchanged if the parser has recorded no table; this is so whenever
  the region has no start tag named \<open>table\<close>; and a first recorded table with zero rows
  is not passed through but rendered as a header line and a separator line without
  columns.
\<close>

theorem region_without_table_unchanged:
  assumes "feed table_html = (events, None)"
  shows "(\<forall>p. run_parser events init_parser = Inr p \<and> tables p = [] \<longrightarrow>
            table_html_to_markdown feed table_html = Inr table_html) \<and>
         (\<not> list_ex is_table_start events \<longrightarrow>
            table_html_to_markdown feed table_html = Inr table_html) \<and>
         (\<forall>p more. run_parser events init_parser = Inr p \<and> tables p = [] # more \<longrightarrow>
            table_html_to_markdown feed table_html = Inr (''|  |'' @ [CHR 0x0A] @ ''|  |''))"
proof (intro conjI impI allI)
  fix p
  assume "run_parser events init_parser = Inr p \<and> tables p = []"
  with assms show "table_html_to_markdown feed table_html = Inr table_html"
    by (simp add: table_html_to_markdown_def)
next
  assume "\<not> list_ex is_table_start events"
  moreover have "idle init_parser" by (simp add: idle_def init_parser_def)
  ultimately obtain p where "run_parser events init_parser = Inr p" and "idle p"
    using run_parser_idle by blast
  with assms show "table_html_to_markdown feed table_html = Inr table_html"
    by (simp add: table_html_to_markdown_def idle_def)
next
  fix p more
  assume "run_parser events init_parser = Inr p \<and> tables p = [] # more"
  moreover have "table_to_markdown [] = Inr (''|  |'' @ [CHR 0x0A] @ ''|  |'')"
    by code_simp
  ultimately show "table_html_to_markdown feed table_html = Inr (''|  |'' @ [CHR 0x0A] @ ''|  |'')"
    using assms by (simp add: table_html_to_markdown_def)
qed

text \<open>
  The region \<open><tablex>...</table>\<close> has no start tag named \<open>table\<close> and is returned
  as it is; in \<open><table>text</table>\<close> a table with zero rows is recorded.
\<close>

theorem region_without_table_unchanged_witness:
  "plain_feed ''<tablex><tr><td>a</td></tr></table>'' =
     ([StartTag ''tablex'' [], StartTag ''tr'' [], StartTag ''td'' [], Data ''a'',
       EndTag ''td'', EndTag ''tr'', EndTag ''table''], None) \<and>
   run_parser
     [StartTag ''tablex'' [], StartTag ''tr'' [], StartTag ''td'' [], Data ''a'',
       EndTag ''td'', EndTag ''tr'', EndTag ''table''] init_parser = Inr init_parser \<and>
   table_html_to_markdown plain_feed ''<tablex><tr><td>a</td></tr></table>'' =
     Inr ''<tablex><tr><td>a</td></tr></table>'' \<and>
   plain_feed ''<table>text</table>'' =
     ([StartTag ''table'' [], Data ''text'', EndTag ''table''], None) \<and>
   run_parser [StartTag ''table'' [], Data ''text'', EndTag ''table''] init_parser =
     Inr (init_parser\<lparr>tables := [[]]\<rparr>) \<and>
   table_html_to_markdown plain_feed ''<table>text</table>'' =
     Inr (''|  |'' @ [CHR 0x0A] @ ''|  |'')"
proof -
  have f1: "plain_feed ''<tablex><tr><td>a</td></tr></table>'' =
     ([StartTag ''tablex'' [], StartTag ''tr'' [], StartTag ''td'' [], Data ''a'',
       EndTag ''td'', EndTag ''tr'', EndTag ''table''], None)" by code_simp
  have n1: "\<not> list_ex is_table_start
     [StartTag ''tablex'' [], StartTag ''tr'' [], StartTag ''td'' [], Data ''a'',
       EndTag ''td'', EndTag ''tr'', EndTag ''table'']" by code_simp
  have r1: "run_parser
     [StartTag ''tablex'' [], StartTag ''tr'' [], StartTag ''td'' [], Data ''a'',
       EndTag ''td'', EndTag ''tr'', EndTag ''table''] init_parser = Inr init_parser"
    by code_simp
  have t1: "tables init_parser = []" by (simp add: init_parser_def)
  have f2: "plain_feed ''<table>text</table>'' =
     ([StartTag ''table'' [], Data ''text'', EndTag ''table''], None)" by code_simp
  have r2: "run_parser [StartTag ''table'' [], Data ''text'', EndTag ''table''] init_parser =
     Inr (init_parser\<lparr>tables := [[]]\<rparr>)" by code_simp
  have t2: "tables (init_parser\<lparr>tables := [[]]\<rparr>) = [] # []" by simp
  from region_without_table_unchanged
      [of plain_feed "''<tablex><tr><td>a</td></tr></table>''", OF f1] n1 r1 t1
    region_without_table_unchanged [of plain_feed "''<table>text</table>''", OF f2] r2 t2 f1 f2
  show ?thesis by blast
qed

text \<open>
  C6 has the original markup returned for a region whose parse yields zero rows or
  zero cells. The parse of \<open><table></table>\<close> yields a table with zero rows, and the
  region is replaced by two lines without columns; a row with zero cells adds a third.
\<close>

theorem empty_table_rendered:
  "run_parser (fst (plain_feed ''<table></table>'')) init_parser =
     Inr (init_parser\<lparr>tables := [[]]\<rparr>) \<and>
   table_html_to_markdown plain_feed ''<table></table>'' =
     Inr (''|  |'' @ [CHR 0x0A] @ ''|  |'') \<and>
   replace_tables_in_place plain_feed (Some ''a<table></table>b'') =
     Inr (''a|  |'' @ [CHR 0x0A] @ ''|  |b'') \<and>
   replace_tables_in_place plain_feed (Some ''<table><tr></tr></table>'') =
     Inr (''|  |'' @ [CHR 0x0A] @ ''|  |'' @ [CHR 0x0A] @ ''|  |'')"
  by code_simp

subsection \<open>Flattening: repeated header text\<close>

text \<open>
  One step of the merge loop in one column: the new header and the new previous
  segment of the column, from the old ones and the propagated value \<open>seg\<close>.
\<close>

definition joined :: "string \<Rightarrow> string option \<Rightarrow> string \<Rightarrow> string" where
  "joined hd_c prev_c seg =
     (if seg = [] \<or> prev_c = Some seg then hd_c
      else if hd_c = [] then seg else hd_c @ '' > '' @ seg)"

definition remembered :: "string option \<Rightarrow> string \<Rightarrow> string option" where
  "remembered prev_c seg = (if seg = [] then prev_c else Some seg)"

lemma join_step_eq:
  "join_step prop c (h, p) =
     (if prop ! c = [] \<or> p ! c = Some (prop ! c) then (h, p)
      else (h[c := joined (h ! c) (p ! c) (prop ! c)], p[c := remembered (p ! c) (prop ! c)]))"
  by (simp add: join_step_def joined_def remembered_def Let_def)

lemma fold_join_step:
  assumes "distinct cs" and "\<forall>c \<in> set cs. c < length h" and "length p = length h"
  shows "fold (join_step prop) cs (h, p) =
     (map (\<lambda>c. if c \<in> set cs then joined (h ! c) (p ! c) (prop ! c) else h ! c) [0..<length h],
      map (\<lambda>c. if c \<in> set cs then remembered (p ! c) (prop ! c) else p ! c) [0..<length h])"
  using assms
proof (induction cs arbitrary: h p)
  case Nil
  then show ?case by (simp add: map_nth) (metis map_nth)
next
  case (Cons c cs)
  let ?h1 = "fst (join_step prop c (h, p))" and ?p1 = "snd (join_step prop c (h, p))"
  have l1: "length ?h1 = length h" "length ?p1 = length h"
    using Cons.prems(3) by (simp_all add: join_step_eq)
  have c: "c < length h" "c \<notin> set cs" using Cons.prems by simp_all
  have h1: "?h1 ! c' = (if c' = c then joined (h ! c) (p ! c) (prop ! c) else h ! c')"
    if "c' < length h" for c'
    using that by (auto simp: join_step_eq joined_def)
  have p1: "?p1 ! c' = (if c' = c then remembered (p ! c) (prop ! c) else p ! c')"
    if "c' < length h" for c'
    using that Cons.prems(3) by (auto simp: join_step_eq remembered_def)
  have "fold (join_step prop) (c # cs) (h, p) = fold (join_step prop) cs (?h1, ?p1)"
    by simp
  also have "\<dots> =
     (map (\<lambda>c. if c \<in> set cs then joined (?h1 ! c) (?p1 ! c) (prop ! c) else ?h1 ! c) [0..<length ?h1],
      map (\<lambda>c. if c \<in> set cs then remembered (?p1 ! c) (prop ! c) else ?p1 ! c) [0..<length ?h1])"
    using Cons.prems l1 by (intro Cons.IH) simp_all
  also have "\<dots> =
     (map (\<lambda>c'. if c' \<in> set (c # cs) then joined (h ! c') (p ! c') (prop ! c') else h ! c') [0..<length h],
      map (\<lambda>c'. if c' \<in> set (c # cs) then remembered (p ! c') (prop ! c') else p ! c') [0..<length h])"
    unfolding l1 using c by (auto simp: h1 p1)
  finally show ?case .
qed

lemma merge_layer_nth:
  assumes "merge_layer n layer (h, p) = Inr (h', p')"
    and "length h = n" and "length p = n"
  shows "length h' = n" and "length p' = n"
    and "c < n \<Longrightarrow> h' ! c = joined (h ! c) (p ! c) (propagate n layer ! c)"
    and "c < n \<Longrightarrow> p' ! c = remembered (p ! c) (propagate n layer ! c)"
proof -
  from assms(1) have "fold (join_step (propagate n layer)) [0..<n] (h, p) = (h', p')"
    by (simp add: merge_layer_def split: if_splits)
  moreover have "fold (join_step (propagate n layer)) [0..<n] (h, p) =
     (map (\<lambda>c. if c \<in> set [0..<n] then joined (h ! c) (p ! c) (propagate n layer ! c) else h ! c) [0..<length h],
      map (\<lambda>c. if c \<in> set [0..<n] then remembered (p ! c) (propagate n layer ! c) else p ! c) [0..<length h])"
    using assms(2,3) by (intro fold_join_step) simp_all
  ultimately have h': "h' = map (\<lambda>c. if c \<in> set [0..<n] then joined (h ! c) (p ! c) (propagate n layer ! c) else h ! c) [0..<n]"
    and p': "p' = map (\<lambda>c. if c \<in> set [0..<n] then remembered (p ! c) (propagate n layer ! c) else p ! c) [0..<n]"
    using assms(2) by simp_all
  show "length h' = n" "length p' = n" by (simp_all add: h' p')
  show "c < n \<Longrightarrow> h' ! c = joined (h ! c) (p ! c) (propagate n layer ! c)"
    by (simp add: h')
  show "c < n \<Longrightarrow> p' ! c = remembered (p ! c) (propagate n layer ! c)"
    by (simp add: p')
qed

text \<open>
  The headers and the previous segments start with one entry for each of the
  \<open>max_cols\<close> columns, and every layer keeps it so.
\<close>

lemma merge_layers_length:
  "merge_layers n layers (h, p) = Inr (h', p') \<Longrightarrow> length h = n \<Longrightarrow> length p = n \<Longrightarrow>
     length h' = n \<and> length p' = n"
proof (induction layers arbitrary: h p)
  case Nil
  then show ?case by simp
next
  case (Cons l layers)
  from Cons.prems(1) obtain h1 p1 where m: "merge_layer n l (h, p) = Inr (h1, p1)"
    and r: "merge_layers n layers (h1, p1) = Inr (h', p')"
    by (auto split: sum.splits)
  note n1 = merge_layer_nth(1,2) [OF m Cons.prems(2,3)]
  from Cons.IH [OF r n1] show ?case .
qed

text \<open>
  C4: two header layers are merged one after the other, from any state of the headers
  and previous segments. In a column whose propagated value in the second layer is the
  one it had in the first, the second layer is skipped: the column's joined header and
  its previous segment stay as the first layer left them, so a header cell with
  \<open>rowspan="2"\<close>, whose text stands in both layers, is joined once.
\<close>

theorem repeated_segment_skipped:
  assumes "length headers = n" and "length prev_seg = n" and "c < n"
    and "merge_layer n layer1 (headers, prev_seg) = Inr (headers1, prev_seg1)"
    and "merge_layer n layer2 (headers1, prev_seg1) = Inr (headers2, prev_seg2)"
    and "propagate n layer2 ! c = propagate n layer1 ! c"
  shows "headers2 ! c = headers1 ! c \<and> prev_seg2 ! c = prev_seg1 ! c"
proof -
  note m1 = merge_layer_nth [OF assms(4) assms(1) assms(2)]
  note m2 = merge_layer_nth [OF assms(5) m1(1) m1(2)]
  from m1(4) [OF assms(3)] have "propagate n layer1 ! c = [] \<or>
      prev_seg1 ! c = Some (propagate n layer1 ! c)"
    by (simp add: remembered_def)
  with m2(3,4) [OF assms(3)] assms(6) show ?thesis by (auto simp: joined_def remembered_def)
qed

text \<open>
  The header cell \<open>X\<close> with \<open>rowspan="2"\<close> beside \<open>Y\<close>, above \<open>Z\<close>: the headers are
  \<open>X\<close> and \<open>Y > Z\<close>.
\<close>

definition tall_header_table :: table where
  "tall_header_table =
     [[\<lparr>ctext = ''X'', rowspan = 2, colspan = 1, is_header = True\<rparr>,
       \<lparr>ctext = ''Y'', rowspan = 1, colspan = 1, is_header = True\<rparr>],
      [\<lparr>ctext = ''Z'', rowspan = 1, colspan = 1, is_header = True\<rparr>]]"

theorem repeated_segment_skipped_witness:
  "expand_grid tall_header_table = ([[''X'', ''Y''], [''X'', ''Z'']], 2) \<and>
   merge_layer 2 [''X'', ''Y''] (replicate 2 [], replicate 2 None) =
     Inr ([''X'', ''Y''], [Some ''X'', Some ''Y'']) \<and>
   merge_layer 2 [''X'', ''Z''] ([''X'', ''Y''], [Some ''X'', Some ''Y'']) =
     Inr ([''X'', ''Y > Z''], [Some ''X'', Some ''Z'']) \<and>
   propagate 2 [''X'', ''Z''] ! 0 = propagate 2 [''X'', ''Y''] ! 0 \<and>
   [''X'', ''Y > Z''] ! 0 = [''X'', ''Y''] ! (0 :: nat) \<and>
   table_to_markdown tall_header_table = Inr (''| X | Y > Z |'' @ [CHR 0x0A] @ ''| :--- | :--- |'')"
proof -
  have g: "expand_grid tall_header_table = ([[''X'', ''Y''], [''X'', ''Z'']], 2)"
    unfolding tall_header_table_def by code_simp
  have m1: "merge_layer 2 [''X'', ''Y''] (replicate 2 [], replicate 2 None) =
     Inr ([''X'', ''Y''], [Some ''X'', Some ''Y''])" by code_simp
  have m2: "merge_layer 2 [''X'', ''Z''] ([''X'', ''Y''], [Some ''X'', Some ''Y'']) =
     Inr ([''X'', ''Y > Z''], [Some ''X'', Some ''Z''])" by code_simp
  have p: "propagate 2 [''X'', ''Z''] ! 0 = propagate 2 [''X'', ''Y''] ! 0" by code_simp
  have t: "table_to_markdown tall_header_table =
     Inr (''| X | Y > Z |'' @ [CHR 0x0A] @ ''| :--- | :--- |'')"
    unfolding tall_header_table_def by code_simp
  have l: "length (replicate 2 ([] :: string)) = 2" "length (replicate 2 (None :: string option)) = 2"
    "(0 :: nat) < 2" by simp_all
  from repeated_segment_skipped [OF l m1 m2 p] g m1 m2 p t show ?thesis by simp
qed

text \<open>
  The propagated value of a column is the last text that is not blank in the columns
  up to it.
\<close>

fun last_text :: "string list \<Rightarrow> nat \<Rightarrow> string" where
  "last_text layer 0 = strip (layer ! 0)"
| "last_text layer (Suc c) =
     (if strip (layer ! Suc c) \<noteq> [] then strip (layer ! Suc c) else last_text layer c)"

lemma fold_propagate_step:
  "k \<le> n \<Longrightarrow>
   \<exists>P. fold (propagate_step layer) [0..<k] (replicate n [], []) =
          (P, if k = 0 then [] else last_text layer (k - 1)) \<and>
       length P = n \<and> (\<forall>c < k. P ! c = last_text layer c)"
proof (induction k)
  case 0
  show ?case by simp
next
  case (Suc k)
  then obtain P where P: "fold (propagate_step layer) [0..<k] (replicate n [], []) =
          (P, if k = 0 then [] else last_text layer (k - 1))"
    "length P = n" "\<forall>c < k. P ! c = last_text layer c"
    by auto
  let ?cur = "if k = 0 then [] else last_text layer (k - 1)"
  have lt: "(if strip (layer ! k) \<noteq> [] then strip (layer ! k) else ?cur) = last_text layer k"
    by (cases k) auto
  have "fold (propagate_step layer) [0..<Suc k] (replicate n [], []) =
          propagate_step layer k (P, ?cur)"
    using P(1) by simp
  also have "\<dots> = (P[k := last_text layer k], last_text layer k)"
    using lt by (simp add: propagate_step_def Let_def)
  finally have "fold (propagate_step layer) [0..<Suc k] (replicate n [], []) =
      (P[k := last_text layer k], if Suc k = 0 then [] else last_text layer (Suc k - 1))"
    by simp
  moreover have "length (P[k := last_text layer k]) = n" using P(2) by simp
  moreover have "\<forall>c < Suc k. P[k := last_text layer k] ! c = last_text layer c"
    using P(2,3) Suc.prems by (auto simp: nth_list_update less_Suc_eq)
  ultimately show ?case by blast
qed

lemma propagate_nth: "c < n \<Longrightarrow> propagate n layer ! c = last_text layer c"
  using fold_propagate_step [of n n layer] by (auto simp: propagate_def)

lemma propagate_text:
  "c < n \<Longrightarrow> strip (layer ! c) \<noteq> [] \<Longrightarrow> propagate n layer ! c = strip (layer ! c)"
  by (cases c) (simp_all add: propagate_nth)

lemma merge_layers_blank:
  assumes "merge_layers n blanks (h, p) = Inr (hb, pb)"
    and "length h = n" and "length p = n" and "c < n"
    and "\<forall>l \<in> set blanks. propagate n l ! c = []"
  shows "length hb = n \<and> length pb = n \<and> hb ! c = h ! c \<and> pb ! c = p ! c"
  using assms
proof (induction blanks arbitrary: h p)
  case Nil
  then show ?case by simp
next
  case (Cons l blanks)
  from Cons.prems(1) obtain h1 p1 where m: "merge_layer n l (h, p) = Inr (h1, p1)"
    and r: "merge_layers n blanks (h1, p1) = Inr (hb, pb)"
    by (auto split: sum.splits)
  note n1 = merge_layer_nth [OF m Cons.prems(2,3)]
  from Cons.prems(5) have b: "propagate n l ! c = []" and bs: "\<forall>l \<in> set blanks. propagate n l ! c = []"
    by simp_all
  from n1(3,4) [OF Cons.prems(4)] b have "h1 ! c = h ! c" "p1 ! c = p ! c"
    by (simp_all add: joined_def remembered_def)
  with Cons.IH [OF r n1(1,2) Cons.prems(4) bs] show ?case by simp
qed

text \<open>
  C10: the duplicate check compares texts, and the previous segment of a column is kept
  through layers whose propagated value for the column is blank. A layer with a
  non-blank text in column \<open>c\<close> is merged, then any number of layers that are blank in
  that column (none, too), then a layer with the same text in column \<open>c\<close>: the last
  layer adds nothing to the column's joined header, with no \<open>rowspan\<close> involved.
\<close>

theorem equal_text_joined_once:
  assumes "length headers = n" and "length prev_seg = n" and "c < n"
    and "merge_layer n layer1 (headers, prev_seg) = Inr (headers1, prev_seg1)"
    and "\<forall>l \<in> set blanks. propagate n l ! c = []"
    and "merge_layers n blanks (headers1, prev_seg1) = Inr (headers2, prev_seg2)"
    and "merge_layer n layer3 (headers2, prev_seg2) = Inr (headers3, prev_seg3)"
    and "strip (layer1 ! c) \<noteq> []" and "strip (layer3 ! c) = strip (layer1 ! c)"
  shows "headers3 ! c = headers1 ! c"
proof -
  note m1 = merge_layer_nth [OF assms(4) assms(1) assms(2)]
  note mb = merge_layers_blank [OF assms(6) m1(1) m1(2) assms(3) assms(5)]
  from mb have lb: "length headers2 = n" "length prev_seg2 = n" by simp_all
  note m3 = merge_layer_nth [OF assms(7) lb]
  have s1: "propagate n layer1 ! c = strip (layer1 ! c)"
    using assms(3,8) by (rule propagate_text)
  have s3: "propagate n layer3 ! c = strip (layer1 ! c)"
    using propagate_text [OF assms(3), of layer3] assms(8,9) by simp
  from m1(4) [OF assms(3)] s1 assms(8) have "prev_seg1 ! c = Some (strip (layer1 ! c))"
    by (simp add: remembered_def)
  with mb have "prev_seg2 ! c = Some (strip (layer1 ! c))" by simp
  with m3(3) [OF assms(3)] s3 mb show ?thesis by (simp add: joined_def)
qed

text \<open>
  Three header rows of one cell each, \<open>A\<close>, a blank cell and \<open>A\<close> again: the header
  is \<open>A\<close>.
\<close>

definition repeated_text_table :: table where
  "repeated_text_table =
     [[\<lparr>ctext = ''A'', rowspan = 1, colspan = 1, is_header = True\<rparr>],
      [\<lparr>ctext = [], rowspan = 1, colspan = 1, is_header = True\<rparr>],
      [\<lparr>ctext = ''A'', rowspan = 1, colspan = 1, is_header = True\<rparr>]]"

theorem equal_text_joined_once_witness:
  "expand_grid repeated_text_table = ([[''A''], [[]], [''A'']], 1) \<and>
   merge_layer 1 [''A''] (replicate 1 [], replicate 1 None) = Inr ([''A''], [Some ''A'']) \<and>
   propagate 1 [[]] ! 0 = [] \<and>
   merge_layers 1 [[[]]] ([''A''], [Some ''A'']) = Inr ([''A''], [Some ''A'']) \<and>
   merge_layer 1 [''A''] ([''A''], [Some ''A'']) = Inr ([''A''], [Some ''A'']) \<and>
   strip ([''A''] ! 0) = ''A'' \<and>
   table_to_markdown repeated_text_table = Inr (''| A |'' @ [CHR 0x0A] @ ''| :--- |'') \<and>
   replace_tables_in_place plain_feed
     (Some ''<table><tr><th>A</th></tr><tr><th></th></tr><tr><th>A</th></tr></table>'') =
     Inr (''| A |'' @ [CHR 0x0A] @ ''| :--- |'')"
proof -
  have g: "expand_grid repeated_text_table = ([[''A''], [[]], [''A'']], 1)"
    unfolding repeated_text_table_def by code_simp
  have m1: "merge_layer 1 [''A''] (replicate 1 [], replicate 1 None) = Inr ([''A''], [Some ''A''])"
    by code_simp
  have b: "propagate 1 [[]] ! 0 = []" by code_simp
  then have bs: "\<forall>l \<in> set [[[]]]. propagate 1 l ! 0 = []" by simp
  have mb: "merge_layers 1 [[[]]] ([''A''], [Some ''A'']) = Inr ([''A''], [Some ''A''])"
    by code_simp
  have m3: "merge_layer 1 [''A''] ([''A''], [Some ''A'']) = Inr ([''A''], [Some ''A''])"
    by code_simp
  have s: "strip ([''A''] ! 0) = ''A''" by code_simp
  then have s1: "strip ([''A''] ! 0) \<noteq> []" by simp
  have t: "table_to_markdown repeated_text_table = Inr (''| A |'' @ [CHR 0x0A] @ ''| :--- |'')"
    unfolding repeated_text_table_def by code_simp
  have e: "replace_tables_in_place plain_feed
     (Some ''<table><tr><th>A</th></tr><tr><th></th></tr><tr><th>A</th></tr></table>'') =
     Inr (''| A |'' @ [CHR 0x0A] @ ''| :--- |'')" by code_simp
  have l: "length (replicate 1 ([] :: string)) = 1" "length (replicate 1 (None :: string option)) = 1"
    "(0 :: nat) < 1" by simp_all
  from equal_text_joined_once [OF l m1 bs mb m3 s1 refl] g m1 b mb m3 s t e show ?thesis
    by simp
qed

end
